theory Spec2Isabelle
  imports Main "HOL-Library.Word"
begin

section \<open>Strings, tokens and errors\<close>

text \<open>
  A JavaScript string is a sequence of UTF-16 code units; \<open>expr[i]\<close> reads one code
  unit, and every test of \<open>script.js\<close> on a character is a test on one code unit.
  \<open>js\<close> turns a literal of this theory into such a sequence.
\<close>

type_synonym code_unit = "16 word"
type_synonym jsstring = "code_unit list"

abbreviation CH :: "char \<Rightarrow> code_unit" where
  "CH c \<equiv> of_char c"

definition js :: "string \<Rightarrow> jsstring" where
  "js s = map of_char s"

text \<open>
  The token objects of \<open>tokenize\<close>: \<open>{type:'number', value:num}\<close>,
  \<open>{type:'operator', value:ch}\<close> (the value is the one character read),
  \<open>{type:'left_paren'}\<close>, \<open>{type:'right_paren'}\<close> and \<open>{type:'percent'}\<close>.
\<close>

datatype token =
    Number jsstring
  | Operator code_unit
  | LeftParen
  | RightParen
  | Percent

text \<open>One constructor for each \<open>throw new Error(...)\<close> of the pipeline.\<close>

datatype error =
    InvalidCharacter code_unit
  | MismatchedParentheses
  | InvalidNumber
  | PercentError
  | OperatorError
  | DivisionByZero
  | UnknownOperator
  | UnexpectedToken
  | InvalidExpression
  | MathError

section \<open>The tokenizer\<close>

text \<open>
  The regular expression \<open>/\s/\<close> matches the white space and line terminator code
  units of ECMAScript.
\<close>

definition is_space :: "code_unit \<Rightarrow> bool" where
  "is_space c \<longleftrightarrow>
     c = 0x09 \<or> c = 0x0A \<or> c = 0x0B \<or> c = 0x0C \<or> c = 0x0D \<or> c = 0x20 \<or> c = 0xA0
     \<or> c = 0x1680 \<or> (0x2000 \<le> c \<and> c \<le> 0x200A) \<or> c = 0x2028 \<or> c = 0x2029
     \<or> c = 0x202F \<or> c = 0x205F \<or> c = 0x3000 \<or> c = 0xFEFF"

definition is_digit :: "code_unit \<Rightarrow> bool" where
  "is_digit c \<longleftrightarrow> CH CHR ''0'' \<le> c \<and> c \<le> CH CHR ''9''"

text \<open>\<open>/\d|\./\<close> and \<open>/[0-9.]/\<close> accept the same code units.\<close>

definition is_number_char :: "code_unit \<Rightarrow> bool" where
  "is_number_char c \<longleftrightarrow> is_digit c \<or> c = CH CHR ''.''"

definition is_operator_char :: "code_unit \<Rightarrow> bool" where
  "is_operator_char c \<longleftrightarrow>
     c = CH CHR ''+'' \<or> c = CH CHR ''-'' \<or> c = CH CHR ''*'' \<or> c = CH CHR ''/''"

text \<open>
  The test of line 120 on the tokens pushed so far: no token yet, or the last one is an
  operator whose value is not \<open>'%'\<close>, or the last one is a left parenthesis.
\<close>

definition unary_position :: "token list \<Rightarrow> bool" where
  "unary_position tokens \<longleftrightarrow>
     tokens = [] \<or>
     (case last tokens of
        Operator v \<Rightarrow> v \<noteq> CH CHR ''%''
      | LeftParen \<Rightarrow> True
      | _ \<Rightarrow> False)"

text \<open>
  The \<open>while (i < expr.length)\<close> loop, on the tokens pushed so far and the characters
  from index \<open>i\<close> on. The inner loop of a number takes the longest run of digits and
  dots that follows its first character.
\<close>

function tokenize_loop :: "token list \<Rightarrow> jsstring \<Rightarrow> error + token list" where
  "tokenize_loop tokens [] = Inr tokens"
| "tokenize_loop tokens (ch # rest) =
     (if is_space ch then tokenize_loop tokens rest
      else if is_number_char ch then
        tokenize_loop (tokens @ [Number (ch # takeWhile is_number_char rest)])
          (dropWhile is_number_char rest)
      else if is_operator_char ch then
        tokenize_loop
          ((if ch = CH CHR ''-'' \<and> unary_position tokens
            then tokens @ [Number (js ''0'')] else tokens) @ [Operator ch])
          rest
      else if ch = CH CHR ''('' then tokenize_loop (tokens @ [LeftParen]) rest
      else if ch = CH CHR '')'' then tokenize_loop (tokens @ [RightParen]) rest
      else if ch = CH CHR ''%'' then tokenize_loop (tokens @ [Percent]) rest
      else Inl (InvalidCharacter ch))"
  by pat_completeness auto
termination
  by (relation "measure (\<lambda>(tokens, cs). length cs)")
     (auto simp: length_dropWhile_le less_Suc_eq_le)

definition tokenize :: "jsstring \<Rightarrow> error + token list" where
  "tokenize expr = tokenize_loop [] expr"

section \<open>The shunting-yard parser\<close>

text \<open>
  The two tables of \<open>toRPN\<close>. A key that is not in the object reads as
  \<open>undefined\<close>, here \<open>None\<close>.
\<close>

definition precedence :: "code_unit \<Rightarrow> nat option" where
  "precedence c =
     (if c = CH CHR ''+'' then Some 1
      else if c = CH CHR ''-'' then Some 1
      else if c = CH CHR ''*'' then Some 2
      else if c = CH CHR ''/'' then Some 2
      else None)"

definition isLeftAssoc :: "code_unit \<Rightarrow> bool option" where
  "isLeftAssoc c =
     (if c = CH CHR ''+'' \<or> c = CH CHR ''-'' \<or> c = CH CHR ''*'' \<or> c = CH CHR ''/''
      then Some True else None)"

text \<open>\<open>undefined\<close> is falsy, and a comparison with \<open>undefined\<close> is false.\<close>

fun truthy :: "bool option \<Rightarrow> bool" where
  "truthy None = False"
| "truthy (Some b) = b"

fun js_le :: "nat option \<Rightarrow> nat option \<Rightarrow> bool" where
  "js_le (Some a) (Some b) = (a \<le> b)"
| "js_le _ _ = False"

fun js_lt :: "nat option \<Rightarrow> nat option \<Rightarrow> bool" where
  "js_lt (Some a) (Some b) = (a < b)"
| "js_lt _ _ = False"

text \<open>The condition of line 157 for popping the operator \<open>o2\<close> before pushing \<open>o1\<close>.\<close>

definition pops :: "code_unit \<Rightarrow> code_unit \<Rightarrow> bool" where
  "pops o1 o2 \<longleftrightarrow>
     (truthy (isLeftAssoc o1) \<and> js_le (precedence o1) (precedence o2))
     \<or> (\<not> truthy (isLeftAssoc o1) \<and> js_lt (precedence o1) (precedence o2))"

text \<open>
  The parser's state is the output array and the operator stack \<open>ops\<close>; the stack is a
  list whose head is the top. \<open>pop_operators\<close> is the \<open>while\<close> loop of lines 153 to
  163, \<open>pop_to_left_paren\<close> the one of lines 169 to 173 (\<open>None\<close> when
  \<open>found\<close> stays false).
\<close>

fun pop_operators :: "code_unit \<Rightarrow> token list \<Rightarrow> token list \<Rightarrow> token list \<times> token list" where
  "pop_operators o1 output [] = (output, [])"
| "pop_operators o1 output (Operator o2 # ops) =
     (if pops o1 o2 then pop_operators o1 (output @ [Operator o2]) ops
      else (output, Operator o2 # ops))"
| "pop_operators o1 output (tok # ops) = (output, tok # ops)"

fun pop_to_left_paren :: "token list \<Rightarrow> token list \<Rightarrow> (token list \<times> token list) option" where
  "pop_to_left_paren output [] = None"
| "pop_to_left_paren output (tok # ops) =
     (if tok = LeftParen then Some (output, ops)
      else pop_to_left_paren (output @ [tok]) ops)"

text \<open>The body of \<open>tokens.forEach\<close> for one token.\<close>

fun toRPN_step :: "token list \<times> token list \<Rightarrow> token \<Rightarrow> error + token list \<times> token list" where
  "toRPN_step (output, ops) (Number v) = Inr (output @ [Number v], ops)"
| "toRPN_step (output, ops) Percent = Inr (output @ [Percent], ops)"
| "toRPN_step (output, ops) (Operator o1) =
     (case pop_operators o1 output ops of
        (output', ops') \<Rightarrow> Inr (output', Operator o1 # ops'))"
| "toRPN_step (output, ops) LeftParen = Inr (output, LeftParen # ops)"
| "toRPN_step (output, ops) RightParen =
     (case pop_to_left_paren output ops of
        None \<Rightarrow> Inl MismatchedParentheses
      | Some s \<Rightarrow> Inr s)"

fun toRPN_loop :: "token list \<times> token list \<Rightarrow> token list \<Rightarrow> error + token list \<times> token list" where
  "toRPN_loop s [] = Inr s"
| "toRPN_loop s (t # ts) =
     (case toRPN_step s t of
        Inl e \<Rightarrow> Inl e
      | Inr s' \<Rightarrow> toRPN_loop s' ts)"

text \<open>The final \<open>while (ops.length > 0)\<close> loop of lines 178 to 182.\<close>

fun drain :: "token list \<Rightarrow> token list \<Rightarrow> error + token list" where
  "drain output [] = Inr output"
| "drain output (tok # ops) =
     (if tok = LeftParen \<or> tok = RightParen then Inl MismatchedParentheses
      else drain (output @ [tok]) ops)"

definition toRPN :: "token list \<Rightarrow> error + token list" where
  "toRPN tokens =
     (case toRPN_loop ([], []) tokens of
        Inl e \<Rightarrow> Inl e
      | Inr (output, ops) \<Rightarrow> drain output ops)"

section \<open>Number values\<close>

text \<open>
  A Number is an IEEE 754 binary64 value. \<open>Finite s m e\<close> stands for
  \<open>m * 2^e\<close>, negated when \<open>s\<close> holds: a normal number has \<open>2^52 \<le> m < 2^53\<close> and
  \<open>-1074 \<le> e \<le> 971\<close>, a subnormal number or a zero has \<open>m < 2^52\<close> and
  \<open>e = -1074\<close>. The sign \<open>s\<close> is \<open>True\<close> for a negative value, so that
  \<open>Finite True 0 (-1074)\<close> is the negative zero; \<open>m\<close> is never negative. Every
  operation below returns values of this form, and two such values are equal exactly
  when they are the same Number (the one NaN apart, which no comparison of the program
  reads).
\<close>

datatype jsnumber = NaN | Infinite bool | Finite bool int int

definition positive_zero :: jsnumber where
  "positive_zero = Finite False 0 (-1074)"

definition negative_zero :: jsnumber where
  "negative_zero = Finite True 0 (-1074)"

text \<open>The number of binary digits of \<open>n\<close>.\<close>

function bitlen :: "int \<Rightarrow> int" where
  "bitlen n = (if n \<le> 0 then 0 else 1 + bitlen (n div 2))"
  by pat_completeness auto
termination
  by (relation "measure nat") auto

declare bitlen.simps [simp del]

text \<open>
  \<open>round_to_double s p q\<close> is the Number value for the rational \<open>p / q\<close> (with
  \<open>0 \<le> p\<close> and \<open>0 < q\<close>), negated when \<open>s\<close> holds: the nearest binary64 value,
  ties to the even significand, and an infinity once the rounded value reaches
  \<open>2^1024\<close>. \<open>fl\<close> is the integer with \<open>2^fl \<le> p / q < 2^(fl + 1)\<close>, \<open>e\<close> the
  exponent of the unit in the last place of the result, \<open>n\<close> and \<open>r\<close> quotient and
  remainder of \<open>p / q\<close> by that unit.
\<close>

definition round_to_double :: "bool \<Rightarrow> int \<Rightarrow> int \<Rightarrow> jsnumber" where
  "round_to_double s p q =
     (if p = 0 then Finite s 0 (-1074)
      else
        let k = bitlen p - bitlen q;
            fl = (if q * 2 ^ nat k \<le> p * 2 ^ nat (- k) then k else k - 1);
            e = max (fl - 52) (-1074);
            num = p * 2 ^ nat (- e);
            den = q * 2 ^ nat e;
            n = num div den;
            r = num mod den;
            n' = (if 2 * r < den then n
                  else if den < 2 * r then n + 1
                  else if even n then n else n + 1);
            m = (if n' = 2 ^ 53 then 2 ^ 52 else n');
            e' = (if n' = 2 ^ 53 then e + 1 else e)
        in if 971 < e' then Infinite s else Finite s m e')"

text \<open>The literals \<open>100\<close> and \<open>1e12\<close> of the source, and \<open>Number.EPSILON\<close>.\<close>

definition lit_100 :: jsnumber where
  "lit_100 = round_to_double False 100 1"

definition lit_1e12 :: jsnumber where
  "lit_1e12 = round_to_double False (10 ^ 12) 1"

definition EPSILON :: jsnumber where
  "EPSILON = round_to_double False 1 (2 ^ 52)"

text \<open>
  The arithmetic operators: the exact result, rounded. A sum that is exactly zero is the
  negative zero only when both operands are negative (two negative zeros).
\<close>

fun js_neg :: "jsnumber \<Rightarrow> jsnumber" where
  "js_neg NaN = NaN"
| "js_neg (Infinite s) = Infinite (\<not> s)"
| "js_neg (Finite s m e) = Finite (\<not> s) m e"

fun js_add :: "jsnumber \<Rightarrow> jsnumber \<Rightarrow> jsnumber" where
  "js_add NaN y = NaN"
| "js_add x NaN = NaN"
| "js_add (Infinite s) (Infinite t) = (if s = t then Infinite s else NaN)"
| "js_add (Infinite s) (Finite t m e) = Infinite s"
| "js_add (Finite s m e) (Infinite t) = Infinite t"
| "js_add (Finite s1 m1 e1) (Finite s2 m2 e2) =
     (let e = min e1 e2;
          n = (if s1 then - m1 else m1) * 2 ^ nat (e1 - e)
            + (if s2 then - m2 else m2) * 2 ^ nat (e2 - e)
      in if n = 0 then Finite (s1 \<and> s2) 0 (-1074)
         else round_to_double (n < 0) (\<bar>n\<bar> * 2 ^ nat e) (2 ^ nat (- e)))"

definition js_sub :: "jsnumber \<Rightarrow> jsnumber \<Rightarrow> jsnumber" where
  "js_sub x y = js_add x (js_neg y)"

fun js_mul :: "jsnumber \<Rightarrow> jsnumber \<Rightarrow> jsnumber" where
  "js_mul NaN y = NaN"
| "js_mul x NaN = NaN"
| "js_mul (Infinite s) (Infinite t) = Infinite (s \<noteq> t)"
| "js_mul (Infinite s) (Finite t m e) = (if m = 0 then NaN else Infinite (s \<noteq> t))"
| "js_mul (Finite s m e) (Infinite t) = (if m = 0 then NaN else Infinite (s \<noteq> t))"
| "js_mul (Finite s1 m1 e1) (Finite s2 m2 e2) =
     round_to_double (s1 \<noteq> s2) (m1 * m2 * 2 ^ nat (e1 + e2)) (2 ^ nat (- (e1 + e2)))"

fun js_div :: "jsnumber \<Rightarrow> jsnumber \<Rightarrow> jsnumber" where
  "js_div NaN y = NaN"
| "js_div x NaN = NaN"
| "js_div (Infinite s) (Infinite t) = NaN"
| "js_div (Infinite s) (Finite t m e) = Infinite (s \<noteq> t)"
| "js_div (Finite s m e) (Infinite t) = Finite (s \<noteq> t) 0 (-1074)"
| "js_div (Finite s1 m1 e1) (Finite s2 m2 e2) =
     (if m2 = 0 then (if m1 = 0 then NaN else Infinite (s1 \<noteq> s2))
      else round_to_double (s1 \<noteq> s2) (m1 * 2 ^ nat (e1 - e2)) (m2 * 2 ^ nat (e2 - e1)))"

text \<open>\<open>b === 0\<close>: true of both zeros, false of NaN.\<close>

fun is_zero :: "jsnumber \<Rightarrow> bool" where
  "is_zero (Finite s m e) = (m = 0)"
| "is_zero _ = False"

text \<open>The global \<open>isFinite\<close> and \<open>Number.isNaN\<close>.\<close>

fun isFinite :: "jsnumber \<Rightarrow> bool" where
  "isFinite (Finite s m e) = True"
| "isFinite _ = False"

fun isNaN :: "jsnumber \<Rightarrow> bool" where
  "isNaN NaN = True"
| "isNaN _ = False"

text \<open>
  \<open>Math.round\<close>: the integer nearest to \<open>x\<close>, the greater one at a tie, that is the
  floor of \<open>x + 1/2\<close> computed exactly; a zero result takes the sign of \<open>x\<close>. A value
  with \<open>0 \<le> e\<close> is an integer already.
\<close>

fun math_round :: "jsnumber \<Rightarrow> jsnumber" where
  "math_round NaN = NaN"
| "math_round (Infinite s) = Infinite s"
| "math_round (Finite s m e) =
     (if 0 \<le> e \<or> m = 0 then Finite s m e
      else
        let n = ((if s then - 2 * m else 2 * m) + 2 ^ nat (- e)) div 2 ^ nat (1 - e)
        in if n = 0 then Finite s 0 (-1074)
           else round_to_double (n < 0) \<bar>n\<bar> 1)"

section \<open>Numbers and strings\<close>

text \<open>The decimal digits of a natural number, as a string and as a count.\<close>

definition digit_char :: "int \<Rightarrow> code_unit" where
  "digit_char d = CH CHR ''0'' + of_int d"

function digits_of :: "int \<Rightarrow> jsstring" where
  "digits_of n =
     (if n < 10 then [digit_char n] else digits_of (n div 10) @ [digit_char (n mod 10)])"
  by pat_completeness auto
termination
  by (relation "measure nat") auto

declare digits_of.simps [simp del]

function ndigits :: "int \<Rightarrow> int" where
  "ndigits n = (if n < 10 then 1 else 1 + ndigits (n div 10))"
  by pat_completeness auto
termination
  by (relation "measure nat") auto

declare ndigits.simps [simp del]

subsection \<open>\<open>String(result)\<close>\<close>

text \<open>
  \<open>Number::toString\<close> of ECMAScript writes a finite, nonzero \<open>x\<close> with the digits of
  the integer \<open>s\<close>, where \<open>k \<ge> 1\<close>, \<open>10^(k - 1) \<le> s < 10^k\<close>, the Number value for
  \<open>s * 10^(n - k)\<close> is \<open>x\<close> and \<open>k\<close> is as small as possible; of several such
  \<open>s\<close> the engines take the one nearest to \<open>x\<close>, as the standard recommends.

  \<open>decimal_position p q\<close> is the integer \<open>n\<close> with \<open>10^(n - 1) \<le> p / q < 10^n\<close>, for
  positive \<open>p\<close> and \<open>q\<close>.
\<close>

definition decimal_position :: "int \<Rightarrow> int \<Rightarrow> int" where
  "decimal_position p q =
     (if q \<le> p then ndigits (p div q) else 1 - ndigits ((q - 1) div p))"

text \<open>
  For \<open>x = m * 2^e\<close> and \<open>k\<close> digits, the only integers \<open>s\<close> that can do are the two
  next to \<open>x / 10^(n - k)\<close>, \<open>lo\<close> below and \<open>hi\<close> above (the Number values of the
  rationals grow with them). \<open>digits_at m e k\<close> is the one the rule above chooses, if
  there is one.
\<close>

definition digits_at :: "int \<Rightarrow> int \<Rightarrow> int \<Rightarrow> int option" where
  "digits_at m e k =
     (let p = m * 2 ^ nat e;
          q = 2 ^ nat (- e);
          n = decimal_position p q;
          a = p * 10 ^ nat (k - n);
          b = q * 10 ^ nat (n - k);
          lo = a div b;
          hi = lo + 1;
          r = a mod b;
          ok = (\<lambda>s. round_to_double False (s * 10 ^ nat (n - k)) (10 ^ nat (k - n))
                      = Finite False m e)
      in if ok lo \<and> ok hi then
           (if 2 * r < b then Some lo
            else if b < 2 * r then Some hi
            else if even lo then Some lo else Some hi)
         else if ok lo then Some lo
         else if ok hi then Some hi
         else None)"

text \<open>
  The search for the least \<open>k\<close>, from \<open>k\<close> on. Seventeen digits always do; there the
  search ends with the integer nearest to \<open>x / 10^(n - k)\<close>.
\<close>

function shortest_digits :: "int \<Rightarrow> int \<Rightarrow> int \<Rightarrow> int \<times> int" where
  "shortest_digits m e k =
     (case digits_at m e k of
        Some s \<Rightarrow> (s, k)
      | None \<Rightarrow>
          if 17 \<le> k then
            (let p = m * 2 ^ nat e;
                 q = 2 ^ nat (- e);
                 n = decimal_position p q
             in ((2 * p * 10 ^ nat (k - n) + q * 10 ^ nat (n - k))
                   div (2 * q * 10 ^ nat (n - k)), k))
          else shortest_digits m e (k + 1))"
  by pat_completeness auto
termination
  by (relation "measure (\<lambda>(m, e, k). nat (17 - k))") auto

declare shortest_digits.simps [simp del]

text \<open>
  The layout of the digits \<open>ds\<close> of \<open>s\<close> for \<open>k\<close> and \<open>n\<close>: an integer with
  \<open>n - k\<close> zeros after it, a decimal point inside the digits, a leading \<open>0.\<close> with
  \<open>-n\<close> zeros, or the exponent form beyond 21 digits before and 6 zeros after the point.
\<close>

definition layout :: "jsstring \<Rightarrow> int \<Rightarrow> int \<Rightarrow> jsstring" where
  "layout ds k n =
     (if k \<le> n \<and> n \<le> 21 then ds @ replicate (nat (n - k)) (CH CHR ''0'')
      else if 0 < n \<and> n \<le> 21 then take (nat n) ds @ [CH CHR ''.''] @ drop (nat n) ds
      else if - 6 < n \<and> n \<le> 0 then
        js ''0.'' @ replicate (nat (- n)) (CH CHR ''0'') @ ds
      else
        (if k = 1 then ds else take 1 ds @ [CH CHR ''.''] @ drop 1 ds)
        @ [CH CHR ''e'', if n - 1 < 0 then CH CHR ''-'' else CH CHR ''+'']
        @ digits_of \<bar>n - 1\<bar>)"

text \<open>
  When the integer chosen is \<open>10^k\<close> itself (the digits round up to the next power of
  ten), it is written as \<open>10^(k - 1)\<close> with \<open>n\<close> one greater.
\<close>

fun number_to_string :: "jsnumber \<Rightarrow> jsstring" where
  "number_to_string NaN = js ''NaN''"
| "number_to_string (Infinite s) = (if s then js ''-Infinity'' else js ''Infinity'')"
| "number_to_string (Finite s m e) =
     (if m = 0 then js ''0''
      else
        (if s then js ''-'' else []) @
        (case shortest_digits m e 1 of
           (d, k) \<Rightarrow>
             let n = decimal_position (m * 2 ^ nat e) (2 ^ nat (- e))
             in if d = 10 ^ nat k then layout (digits_of (d div 10)) k (n + 1)
                else layout (digits_of d) k n))"

subsection \<open>\<open>Number(token.value)\<close>\<close>

text \<open>
  \<open>StringToNumber\<close> of ECMAScript: the string without the white space at its two ends
  is empty (the value is \<open>0\<close>), or a binary, octal or hexadecimal integer after
  \<open>0b\<close>, \<open>0o\<close>, \<open>0x\<close>, or a decimal literal with an optional sign: \<open>Infinity\<close>, or
  digits with an optional point and an optional exponent, with a digit before or after
  the point. Anything else is NaN. The value is the Number value for the literal's
  mathematical value (for a literal of more than 20 significant digits the standard
  allows a neighbour as well; the engines round exactly, as here).
\<close>

definition digit_value :: "code_unit \<Rightarrow> int" where
  "digit_value c =
     (if is_digit c then uint (c - CH CHR ''0'')
      else if CH CHR ''a'' \<le> c \<and> c \<le> CH CHR ''f'' then uint (c - CH CHR ''a'') + 10
      else if CH CHR ''A'' \<le> c \<and> c \<le> CH CHR ''F'' then uint (c - CH CHR ''A'') + 10
      else 16)"

definition digits_value :: "int \<Rightarrow> jsstring \<Rightarrow> int" where
  "digits_value base ds = foldl (\<lambda>acc c. acc * base + digit_value c) 0 ds"

definition all_digits :: "int \<Rightarrow> jsstring \<Rightarrow> bool" where
  "all_digits base ds \<longleftrightarrow> ds \<noteq> [] \<and> list_all (\<lambda>c. digit_value c < base) ds"

text \<open>The exponent part: absent, or \<open>e\<close> or \<open>E\<close>, an optional sign and digits.\<close>

definition exponent_part :: "jsstring \<Rightarrow> int option" where
  "exponent_part cs =
     (case cs of
        [] \<Rightarrow> Some 0
      | c # ds \<Rightarrow>
          if c = CH CHR ''e'' \<or> c = CH CHR ''E'' then
            (case ds of
               [] \<Rightarrow> None
             | d # ds' \<Rightarrow>
                 if d = CH CHR ''-'' then
                   (if all_digits 10 ds' then Some (- digits_value 10 ds') else None)
                 else if d = CH CHR ''+'' then
                   (if all_digits 10 ds' then Some (digits_value 10 ds') else None)
                 else if all_digits 10 ds then Some (digits_value 10 ds) else None)
          else None)"

text \<open>
  An unsigned decimal literal with the sign \<open>s\<close> read before it: the digits \<open>ip\<close>
  before the point, \<open>fp\<close> after it, and the exponent \<open>ex\<close>.
\<close>

definition unsigned_decimal :: "bool \<Rightarrow> jsstring \<Rightarrow> jsnumber" where
  "unsigned_decimal s cs =
     (if cs = js ''Infinity'' then Infinite s
      else
        let ip = takeWhile is_digit cs;
            r1 = dropWhile is_digit cs;
            dot = (r1 \<noteq> [] \<and> hd r1 = CH CHR ''.'');
            fp = (if dot then takeWhile is_digit (tl r1) else []);
            r2 = (if dot then dropWhile is_digit (tl r1) else r1)
        in if ip = [] \<and> fp = [] then NaN
           else
             (case exponent_part r2 of
                None \<Rightarrow> NaN
              | Some ex \<Rightarrow>
                  round_to_double s
                    (digits_value 10 (ip @ fp) * 10 ^ nat (ex - int (length fp)))
                    (10 ^ nat (int (length fp) - ex))))"

definition prefixed_integer :: "int \<Rightarrow> jsstring \<Rightarrow> jsnumber" where
  "prefixed_integer base ds =
     (if all_digits base ds then round_to_double False (digits_value base ds) 1 else NaN)"

definition string_to_number :: "jsstring \<Rightarrow> jsnumber" where
  "string_to_number text =
     (let cs = rev (dropWhile is_space (rev (dropWhile is_space text)))
      in case cs of
           [] \<Rightarrow> Finite False 0 (-1074)
         | c # ds \<Rightarrow>
             if c = CH CHR ''0'' \<and> ds \<noteq> [] \<and> (hd ds = CH CHR ''b'' \<or> hd ds = CH CHR ''B'')
               then prefixed_integer 2 (tl ds)
             else if c = CH CHR ''0'' \<and> ds \<noteq> [] \<and> (hd ds = CH CHR ''o'' \<or> hd ds = CH CHR ''O'')
               then prefixed_integer 8 (tl ds)
             else if c = CH CHR ''0'' \<and> ds \<noteq> [] \<and> (hd ds = CH CHR ''x'' \<or> hd ds = CH CHR ''X'')
               then prefixed_integer 16 (tl ds)
             else if c = CH CHR ''+'' then unsigned_decimal False ds
             else if c = CH CHR ''-'' then unsigned_decimal True ds
             else unsigned_decimal False cs)"

section \<open>The evaluator\<close>

text \<open>
  One iteration of the \<open>for\<close> loop of \<open>evalRPN\<close> on the stack, a list whose head is
  the top (\<open>stack.push(n)\<close> is \<open>n # stack\<close>).
\<close>

definition apply_operator :: "code_unit \<Rightarrow> jsnumber \<Rightarrow> jsnumber \<Rightarrow> error + jsnumber" where
  "apply_operator v a b =
     (if v = CH CHR ''+'' then Inr (js_add a b)
      else if v = CH CHR ''-'' then Inr (js_sub a b)
      else if v = CH CHR ''*'' then Inr (js_mul a b)
      else if v = CH CHR ''/'' then
        (if is_zero b then Inl DivisionByZero else Inr (js_div a b))
      else Inl UnknownOperator)"

fun evalRPN_step :: "jsnumber list \<Rightarrow> token \<Rightarrow> error + jsnumber list" where
  "evalRPN_step stack (Number v) =
     (let n = string_to_number v
      in if \<not> isFinite n then Inl InvalidNumber else Inr (n # stack))"
| "evalRPN_step stack Percent =
     (case stack of
        [] \<Rightarrow> Inl PercentError
      | v # stack' \<Rightarrow> Inr (js_div v lit_100 # stack'))"
| "evalRPN_step stack (Operator v) =
     (case stack of
        b # a # stack' \<Rightarrow>
          (case apply_operator v a b of
             Inl err \<Rightarrow> Inl err
           | Inr res \<Rightarrow> Inr (res # stack'))
      | _ \<Rightarrow> Inl OperatorError)"
| "evalRPN_step stack _ = Inl UnexpectedToken"

fun evalRPN_loop :: "jsnumber list \<Rightarrow> token list \<Rightarrow> error + jsnumber list" where
  "evalRPN_loop stack [] = Inr stack"
| "evalRPN_loop stack (t # ts) =
     (case evalRPN_step stack t of
        Inl err \<Rightarrow> Inl err
      | Inr stack' \<Rightarrow> evalRPN_loop stack' ts)"

definition evalRPN :: "token list \<Rightarrow> error + jsnumber" where
  "evalRPN rpn =
     (case evalRPN_loop [] rpn of
        Inl err \<Rightarrow> Inl err
      | Inr stack \<Rightarrow>
          (case stack of
             [x] \<Rightarrow> Inr x
           | _ \<Rightarrow> Inl InvalidExpression))"

section \<open>The pipeline\<close>

text \<open>
  \<open>Math.round((result + Number.EPSILON) * 1e12) / 1e12\<close>, line 233.
\<close>

definition round12 :: "jsnumber \<Rightarrow> jsnumber" where
  "round12 result = js_div (math_round (js_mul (js_add result EPSILON) lit_1e12)) lit_1e12"

text \<open>
  Lines 227 to 229: the three stages, each on the result of the one before, an error of
  any stage ending the call.
\<close>

definition calculate :: "jsstring \<Rightarrow> error + jsnumber" where
  "calculate expr =
     (case tokenize expr of
        Inl err \<Rightarrow> Inl err
      | Inr tokens \<Rightarrow>
          (case toRPN tokens of
             Inl err \<Rightarrow> Inl err
           | Inr rpn \<Rightarrow> evalRPN rpn))"

text \<open>The test of line 230, \<open>!isFinite(result) || Number.isNaN(result)\<close>.\<close>

definition math_error :: "jsnumber \<Rightarrow> bool" where
  "math_error result \<longleftrightarrow> \<not> isFinite result \<or> isNaN result"

text \<open>
  \<open>evaluate expr\<close> is the \<open>try\<close> block of \<open>evaluateExpression\<close> for
  \<open>current = expr\<close>, up to \<open>String(result)\<close>: the error thrown, or the string that
  becomes the new \<open>current\<close>.
\<close>

definition evaluate :: "jsstring \<Rightarrow> error + jsstring" where
  "evaluate expr =
     (case calculate expr of
        Inl err \<Rightarrow> Inl err
      | Inr result \<Rightarrow>
          if math_error result then Inl MathError
          else Inr (number_to_string (round12 result)))"

text \<open>
  The calculator's state: the input \<open>current\<close>, the history and the text of the
  display. \<open>evaluateExpression\<close> does nothing on an empty input; an error of the
  \<open>try\<close> block shows \<open>Error\<close> and empties the input; a result is added to the history
  (the last 200 entries are kept) and becomes the input and the display.
\<close>

record calculator =
  current :: jsstring
  history :: "(jsstring \<times> jsstring) list"
  display :: jsstring

definition evaluateExpression :: "calculator \<Rightarrow> calculator" where
  "evaluateExpression c =
     (if current c = [] then c
      else
        case evaluate (current c) of
          Inl err \<Rightarrow> c\<lparr>current := [], display := js ''Error''\<rparr>
        | Inr r \<Rightarrow>
            let h = history c @ [(current c, r)]
            in c\<lparr>current := r,
                 history := (if 200 < length h then tl h else h),
                 display := (if r = [] then js ''0'' else r)\<rparr>)"

section \<open>Predicates of the properties\<close>

text \<open>The operands of the postfix sequence: numbers, and the postfix percent.\<close>

fun is_number :: "token \<Rightarrow> bool" where
  "is_number (Number v) = True"
| "is_number _ = False"

fun is_operand :: "token \<Rightarrow> bool" where
  "is_operand (Number v) = True"
| "is_operand Percent = True"
| "is_operand _ = False"

text \<open>
  What the tokenizer does ensure of a number's text: it is not empty and holds digits
  and dots only.
\<close>

definition number_text :: "jsstring \<Rightarrow> bool" where
  "number_text v \<longleftrightarrow> v \<noteq> [] \<and> list_all is_number_char v"

fun well_formed :: "token \<Rightarrow> bool" where
  "well_formed (Number v) = number_text v"
| "well_formed _ = True"

text \<open>
  \<open>maximal_run cs v\<close>: the text \<open>v\<close> stands in \<open>cs\<close> between \<open>pre\<close> and
  \<open>post\<close>, where \<open>pre\<close> is empty or ends with a character that is neither a digit
  nor a dot, and \<open>post\<close> is empty or starts with such a character.
\<close>

abbreviation maximal_run :: "jsstring \<Rightarrow> jsstring \<Rightarrow> bool" where
  "maximal_run cs v \<equiv>
     \<exists>pre post. cs = pre @ v @ post
       \<and> (pre = [] \<or> \<not> is_number_char (last pre))
       \<and> (post = [] \<or> \<not> is_number_char (hd post))"

text \<open>
  The invariant the data model states for a number's text: at most one dot and at least
  one digit, or a leading \<open>0.\<close>. This is the weakest reading of the sentence (a text
  with a digit and at most one dot, or else any text that starts with \<open>0.\<close>); a text
  that fails it fails every other reading too.
\<close>

definition number_invariant :: "jsstring \<Rightarrow> bool" where
  "number_invariant v \<longleftrightarrow>
     (count_list v (CH CHR ''.'') \<le> 1 \<and> list_ex is_digit v) \<or> take 2 v = js ''0.''"

section \<open>Known values of the arithmetic\<close>

text \<open>
  The model of the Numbers on values that are known from the standard: the nearest
  double to one tenth, the sum \<open>0.1 + 0.2\<close> and its seventeen digits, the largest
  finite double and the overflow above it, the rounding of \<open>Math.round\<close> at a half,
  and two texts that are no numbers.
\<close>

lemma binary64_known_values:
  "string_to_number (js ''0.1'') = Finite False 7205759403792794 (- 56)"
  "number_to_string (js_add (string_to_number (js ''0.1'')) (string_to_number (js ''0.2'')))
     = js ''0.30000000000000004''"
  "string_to_number (js ''1.7976931348623157e308'') = Finite False (2 ^ 53 - 1) 971"
  "js_add (Finite False (2 ^ 53 - 1) 971) (Finite False (2 ^ 53 - 1) 971) = Infinite False"
  "math_round (string_to_number (js ''2.5'')) = string_to_number (js ''3'')"
  "math_round (js_neg (string_to_number (js ''2.5''))) = js_neg (string_to_number (js ''2''))"
  "string_to_number (js ''1.2.3'') = NaN"
  "string_to_number (js ''.'') = NaN"
  by code_simp+

text \<open>
  The other examples of the specification: the sum \<open>0.1+0.2\<close> is shown as \<open>0.3\<close>, a
  letter is an invalid character, a percent with no operand and a text with two dots
  fail in the evaluator.
\<close>

lemma further_examples:
  "evaluate (js ''0.1+0.2'') = Inr (js ''0.3'')"
  "evaluate (js ''1+a'') = Inl (InvalidCharacter (CH CHR ''a''))"
  "evaluate (js ''%'') = Inl PercentError"
  "evaluate (js ''1.2.3'') = Inl InvalidNumber"
  "evaluate (js '' 1 + 2 '') = Inr (js ''3'')"
  by code_simp+

section \<open>The tokenizer's number texts\<close>

lemma number_text_zero: "number_text (js ''0'')"
  by (simp add: number_text_def js_def is_number_char_def is_digit_def)

lemma number_text_run:
  "is_number_char ch \<Longrightarrow> number_text (ch # takeWhile is_number_char rest)"
  by (simp add: number_text_def list_all_iff) (meson set_takeWhileD)

lemma tokenize_loop_well_formed:
  "tokenize_loop tokens cs = Inr res \<Longrightarrow> list_all well_formed tokens \<Longrightarrow>
   list_all well_formed res"
  by (induction tokens cs rule: tokenize_loop.induct)
     (auto simp: number_text_run number_text_zero split: if_splits)

text \<open>
  C3, as the code has it. The tokenizer takes the longest run of digits and dots as one
  number and checks neither the number of dots nor the presence of a digit (the
  evaluator rejects such a text later, when \<open>Number(...)\<close> is not finite): on
  \<open>1.2.3\<close> it succeeds with the one token \<open>Number "1.2.3"\<close>, whose text has two
  dots and no leading \<open>0.\<close>, so the invariant of the data model fails for it.
\<close>

theorem number_invariant_counterexample:
  "tokenize (js ''1.2.3'') = Inr [Number (js ''1.2.3'')] \<and> \<not> number_invariant (js ''1.2.3'')"
  by code_simp

text \<open>
  The number tokens and the input: a run is taken whole. A character before a run that
  the loop reads later is no digit and no dot, since the run before it ended there.
\<close>

lemma space_not_number: "is_space c \<Longrightarrow> \<not> is_number_char c"
proof
  assume s: "is_space c" and n: "is_number_char c"
  have "\<not> (0x2000 \<le> c \<and> c \<le> CH CHR ''9'')"
  proof
    assume "0x2000 \<le> c \<and> c \<le> CH CHR ''9''"
    then have "(0x2000 :: code_unit) \<le> CH CHR ''9''" by (blast intro: order_trans)
    then show False by simp
  qed
  with s n show False
    by (auto simp: is_space_def is_number_char_def is_digit_def)
qed

lemma maximal_run_skip:
  assumes "\<not> is_number_char ch" and "maximal_run rest v"
  shows "maximal_run (ch # rest) v"
proof -
  from assms(2) obtain pre post where r: "rest = pre @ v @ post"
    and l: "pre = [] \<or> \<not> is_number_char (last pre)"
    and p: "post = [] \<or> \<not> is_number_char (hd post)" by blast
  from r have "ch # rest = (ch # pre) @ v @ post" by simp
  moreover from l assms(1) have "\<not> is_number_char (last (ch # pre))" by auto
  ultimately show ?thesis using p by blast
qed

lemma maximal_run_first:
  "maximal_run (ch # rest) (ch # takeWhile is_number_char rest)"
proof -
  have "ch # rest = [] @ (ch # takeWhile is_number_char rest) @ dropWhile is_number_char rest"
    by simp
  moreover have "dropWhile is_number_char rest = []
      \<or> \<not> is_number_char (hd (dropWhile is_number_char rest))"
    using hd_dropWhile [of is_number_char rest] by blast
  ultimately show ?thesis by blast
qed

lemma maximal_run_later:
  assumes "v \<noteq> []" and "list_all is_number_char v"
    and "maximal_run (dropWhile is_number_char rest) v"
  shows "maximal_run (ch # rest) v"
proof -
  from assms(3) obtain pre post where r: "dropWhile is_number_char rest = pre @ v @ post"
    and l: "pre = [] \<or> \<not> is_number_char (last pre)"
    and p: "post = [] \<or> \<not> is_number_char (hd post)" by blast
  have "pre \<noteq> []"
  proof
    assume "pre = []"
    with r assms(1) have d: "dropWhile is_number_char rest \<noteq> []"
      and h: "hd (dropWhile is_number_char rest) = hd v" by auto
    from d have "\<not> is_number_char (hd (dropWhile is_number_char rest))"
      by (simp add: hd_dropWhile)
    with h assms(1,2) show False by (cases v) auto
  qed
  with l have n: "\<not> is_number_char (last ((ch # takeWhile is_number_char rest) @ pre))"
    by simp
  have "ch # rest = (ch # takeWhile is_number_char rest) @ dropWhile is_number_char rest"
    by simp
  with r have "ch # rest = ((ch # takeWhile is_number_char rest) @ pre) @ v @ post"
    by simp
  with n p show ?thesis by blast
qed

lemma tokenize_loop_runs:
  "tokenize_loop tokens cs = Inr res \<Longrightarrow> Number v \<in> set res \<Longrightarrow>
   Number v \<in> set tokens \<or> v = js ''0''
   \<or> (v \<noteq> [] \<and> list_all is_number_char v \<and> maximal_run cs v)"
proof (induction tokens cs rule: tokenize_loop.induct)
  case (1 tokens)
  then show ?case by simp
next
  case (2 tokens ch rest)
  show ?case
  proof (cases "is_space ch")
    case True
    with 2(1) [OF True] 2(7,8) maximal_run_skip [OF space_not_number [OF True], of rest v]
    show ?thesis by auto
  next
    case nsp: False
    show ?thesis
    proof (cases "is_number_char ch")
      case True
      from 2(7) nsp True
      have "tokenize_loop (tokens @ [Number (ch # takeWhile is_number_char rest)])
              (dropWhile is_number_char rest) = Inr res" by simp
      from 2(2) [OF nsp True this 2(8)]
      consider "Number v \<in> set tokens" | "v = ch # takeWhile is_number_char rest"
        | "v = js ''0''"
        | "v \<noteq> []" "list_all is_number_char v" "maximal_run (dropWhile is_number_char rest) v"
        by auto
      then show ?thesis
      proof cases
        case 1
        then show ?thesis by simp
      next
        case 2
        with True maximal_run_first [of ch rest] show ?thesis
          by (simp add: list_all_iff) (meson set_takeWhileD)
      next
        case 3
        then show ?thesis by simp
      next
        case 4
        with maximal_run_later [of v rest ch] show ?thesis by simp
      qed
    next
      case nnum: False
      show ?thesis
      proof (cases "is_operator_char ch")
        case True
        from 2(7) nsp nnum True
        have "tokenize_loop
           ((if ch = CH CHR ''-'' \<and> unary_position tokens
             then tokens @ [Number (js ''0'')] else tokens) @ [Operator ch]) rest = Inr res"
          by simp
        from 2(3) [OF nsp nnum True this 2(8)] maximal_run_skip [OF nnum, of rest v]
        show ?thesis by (auto split: if_splits)
      next
        case nop: False
        from 2(7) nsp nnum nop consider
            (l) "ch = CH CHR ''(''" "tokenize_loop (tokens @ [LeftParen]) rest = Inr res"
          | (r) "ch \<noteq> CH CHR ''(''" "ch = CH CHR '')''"
                "tokenize_loop (tokens @ [RightParen]) rest = Inr res"
          | (p) "ch \<noteq> CH CHR ''(''" "ch \<noteq> CH CHR '')''" "ch = CH CHR ''%''"
                "tokenize_loop (tokens @ [Percent]) rest = Inr res"
          by (auto split: if_splits)
        then show ?thesis
        proof cases
          case l
          from 2(4) [OF nsp nnum nop l(1) l(2) 2(8)] maximal_run_skip [OF nnum, of rest v]
          show ?thesis by auto
        next
          case r
          from 2(5) [OF nsp nnum nop r(1) r(2) r(3) 2(8)] maximal_run_skip [OF nnum, of rest v]
          show ?thesis by auto
        next
          case p
          from 2(6) [OF nsp nnum nop p(1) p(2) p(3) p(4) 2(8)]
            maximal_run_skip [OF nnum, of rest v]
          show ?thesis by auto
        qed
      qed
    qed
  qed
qed


text \<open>
  The converse: when \<open>tokenize_loop\<close> succeeds, every maximal run of digits and dots
  of the characters it reads is the text of a number token of the result.
\<close>

lemma maximal_run_prefix:
  assumes "cs = v @ post" and "list_all is_number_char v"
    and "post = [] \<or> \<not> is_number_char (hd post)"
  shows "takeWhile is_number_char cs = v"
proof -
  from assms(3) have "takeWhile is_number_char post = []" by (cases post) auto
  with assms(1,2) show ?thesis by (simp add: list_all_iff)
qed

lemma maximal_run_tail:
  assumes "\<not> is_number_char ch" and "v \<noteq> []" and "list_all is_number_char v"
    and "maximal_run (ch # rest) v"
  shows "maximal_run rest v"
proof -
  from assms(4) obtain pre post where r: "ch # rest = pre @ v @ post"
    and l: "pre = [] \<or> \<not> is_number_char (last pre)"
    and p: "post = [] \<or> \<not> is_number_char (hd post)" by blast
  have "pre \<noteq> []"
  proof
    assume "pre = []"
    with r assms(2) have "ch = hd v" by (cases v) auto
    with assms(1,2,3) show False by (cases v) auto
  qed
  then obtain pre' where pre: "pre = ch # pre'" using r by (cases pre) auto
  with r have "rest = pre' @ v @ post" by simp
  moreover from l pre have "pre' = [] \<or> \<not> is_number_char (last pre')" by auto
  ultimately show ?thesis using p by blast
qed

lemma maximal_run_after:
  assumes "is_number_char ch" and "maximal_run (ch # rest) v"
    and "v \<noteq> ch # takeWhile is_number_char rest" and "list_all is_number_char v"
  shows "maximal_run (dropWhile is_number_char rest) v"
proof -
  from assms(2) obtain pre post where r: "ch # rest = pre @ v @ post"
    and l: "pre = [] \<or> \<not> is_number_char (last pre)"
    and p: "post = [] \<or> \<not> is_number_char (hd post)" by blast
  have ne: "pre \<noteq> []"
  proof
    assume "pre = []"
    with r have "ch # rest = v @ post" by simp
    from maximal_run_prefix [OF this assms(4) p] assms(1,3) show False by simp
  qed
  with l have n: "\<not> is_number_char (last pre)" by simp
  from ne have m: "last pre \<in> set pre" by simp
  with n have d: "dropWhile is_number_char pre \<noteq> []"
    by (auto simp: dropWhile_eq_Nil_conv)
  have "pre = takeWhile is_number_char pre @ dropWhile is_number_char pre" by simp
  with d have "last pre = last (dropWhile is_number_char pre)"
    by (metis last_appendR)
  with n have b: "\<not> is_number_char (last (dropWhile is_number_char pre))" by simp
  from m n have "dropWhile is_number_char (pre @ v @ post)
      = dropWhile is_number_char pre @ v @ post"
    by (intro dropWhile_append1) auto
  with r assms(1) have "dropWhile is_number_char rest
      = dropWhile is_number_char pre @ v @ post"
    by (metis dropWhile.simps(2))
  with b p show ?thesis by blast
qed

lemma tokenize_loop_keeps:
  "tokenize_loop tokens cs = Inr res \<Longrightarrow> t \<in> set tokens \<Longrightarrow> t \<in> set res"
  by (induction tokens cs rule: tokenize_loop.induct) (auto split: if_splits)

lemma tokenize_loop_finds_runs:
  "tokenize_loop tokens cs = Inr res \<Longrightarrow>
   v \<noteq> [] \<Longrightarrow> list_all is_number_char v \<Longrightarrow> maximal_run cs v \<Longrightarrow>
   Number v \<in> set res"
proof (induction tokens cs rule: tokenize_loop.induct)
  case (1 tokens)
  then show ?case by simp
next
  case (2 tokens ch rest)
  show ?case
  proof (cases "is_number_char ch")
    case True
    then have nsp: "\<not> is_space ch" using space_not_number by blast
    from 2(7) nsp True
    have l: "tokenize_loop (tokens @ [Number (ch # takeWhile is_number_char rest)])
              (dropWhile is_number_char rest) = Inr res" by simp
    show ?thesis
    proof (cases "v = ch # takeWhile is_number_char rest")
      case True
      with tokenize_loop_keeps [OF l, of "Number v"] show ?thesis by simp
    next
      case False
      from maximal_run_after [OF True 2(10) False 2(9)]
      have "maximal_run (dropWhile is_number_char rest) v" .
      from 2(2) [OF nsp True l 2(8,9) this] show ?thesis .
    qed
  next
    case nnum: False
    from maximal_run_tail [OF nnum 2(8,9,10)] have m: "maximal_run rest v" .
    show ?thesis
    proof (cases "is_space ch")
      case True
      with 2(7) have "tokenize_loop tokens rest = Inr res" by simp
      from 2(1) [OF True this 2(8,9) m] show ?thesis .
    next
      case nsp: False
      show ?thesis
      proof (cases "is_operator_char ch")
        case True
        from 2(7) nsp nnum True
        have "tokenize_loop
           ((if ch = CH CHR ''-'' \<and> unary_position tokens
             then tokens @ [Number (js ''0'')] else tokens) @ [Operator ch]) rest = Inr res"
          by simp
        from 2(3) [OF nsp nnum True this 2(8,9) m] show ?thesis .
      next
        case nop: False
        from 2(7) nsp nnum nop consider
            (l) "ch = CH CHR ''(''" "tokenize_loop (tokens @ [LeftParen]) rest = Inr res"
          | (r) "ch \<noteq> CH CHR ''(''" "ch = CH CHR '')''"
                "tokenize_loop (tokens @ [RightParen]) rest = Inr res"
          | (p) "ch \<noteq> CH CHR ''(''" "ch \<noteq> CH CHR '')''" "ch = CH CHR ''%''"
                "tokenize_loop (tokens @ [Percent]) rest = Inr res"
          by (auto split: if_splits)
        then show ?thesis
        proof cases
          case l
          from 2(4) [OF nsp nnum nop l(1) l(2) 2(8,9) m] show ?thesis .
        next
          case r
          from 2(5) [OF nsp nnum nop r(1) r(2) r(3) 2(8,9) m] show ?thesis .
        next
          case p
          from 2(6) [OF nsp nnum nop p(1) p(2) p(3) p(4) 2(8,9) m] show ?thesis .
        qed
      qed
    qed
  qed
qed

lemma tokenize_finds_runs:
  "tokenize expr = Inr tokens \<Longrightarrow>
   v \<noteq> [] \<Longrightarrow> list_all is_number_char v \<Longrightarrow> maximal_run expr v \<Longrightarrow>
   Number v \<in> set tokens"
  using tokenize_loop_finds_runs [of "[]" expr tokens v] by (simp add: tokenize_def)

text \<open>
  C3, amended: for every input on which \<open>tokenize\<close> succeeds, the text of every
  number token it returns is not empty and consists of digits and dots only; it is the
  implicit \<open>0\<close>, or a maximal run of such characters of the input: it stands in the
  input, the character before it (if there is one) is neither a digit nor a dot, and
  neither is the character after it.
\<close>

theorem tokenize_number_text:
  "tokenize expr = Inr tokens \<Longrightarrow> Number v \<in> set tokens \<Longrightarrow>
   v \<noteq> [] \<and> list_all is_number_char v
   \<and> (v = js ''0''
      \<or> (\<exists>pre post. expr = pre @ v @ post
            \<and> (pre = [] \<or> \<not> is_number_char (last pre))
            \<and> (post = [] \<or> \<not> is_number_char (hd post))))"
proof -
  assume t: "tokenize expr = Inr tokens" and v: "Number v \<in> set tokens"
  from t have "list_all well_formed tokens"
    using tokenize_loop_well_formed [of "[]" expr tokens] by (simp add: tokenize_def)
  with v have "well_formed (Number v)" by (auto simp: list_all_iff)
  then have w: "v \<noteq> [] \<and> list_all is_number_char v" by (simp add: number_text_def)
  from t v have "v = js ''0'' \<or> (v \<noteq> [] \<and> list_all is_number_char v \<and> maximal_run expr v)"
    using tokenize_loop_runs [of "[]" expr tokens v] by (simp add: tokenize_def)
  with w show ?thesis by blast
qed

theorem tokenize_number_text_witness:
  "tokenize (js ''-1.2.3+.'') =
     Inr [Number (js ''0''), Operator (CH CHR ''-''), Number (js ''1.2.3''),
          Operator (CH CHR ''+''), Number (js ''.'')]
   \<and> js ''1.2.3'' \<noteq> [] \<and> list_all is_number_char (js ''1.2.3'')
   \<and> js ''1.2.3'' \<noteq> js ''0''
   \<and> (\<exists>pre post. js ''-1.2.3+.'' = pre @ js ''1.2.3'' @ post
          \<and> (pre = [] \<or> \<not> is_number_char (last pre))
          \<and> (post = [] \<or> \<not> is_number_char (hd post)))"
proof -
  have t: "tokenize (js ''-1.2.3+.'') =
     Inr [Number (js ''0''), Operator (CH CHR ''-''), Number (js ''1.2.3''),
          Operator (CH CHR ''+''), Number (js ''.'')]"
    by code_simp
  have m: "Number (js ''1.2.3'') \<in>
     set [Number (js ''0''), Operator (CH CHR ''-''), Number (js ''1.2.3''),
          Operator (CH CHR ''+''), Number (js ''.'')]"
    by simp
  have z: "js ''1.2.3'' \<noteq> js ''0''"
    by (simp add: js_def)
  from tokenize_number_text [OF t m] z t show ?thesis by blast
qed

section \<open>The parser keeps the operands in place\<close>

text \<open>
  The two inner loops move tokens from the top of the stack to the end of the output,
  in the order in which they leave the stack.
\<close>

lemma pop_operators_moves:
  "pop_operators o1 out ops = (out', ops') \<Longrightarrow>
   \<exists>popped. out' = out @ popped \<and> ops = popped @ ops'"
proof (induction o1 out ops rule: pop_operators.induct)
  case (2 o1 out o2 ops)
  show ?case
  proof (cases "pops o1 o2")
    case True
    with 2 obtain popped where "out' = (out @ [Operator o2]) @ popped" "ops = popped @ ops'"
      by auto
    then show ?thesis by simp
  next
    case False
    with 2 show ?thesis by simp
  qed
qed simp_all

lemma pop_to_left_paren_moves:
  "pop_to_left_paren out ops = Some (out', ops') \<Longrightarrow>
   \<exists>popped. out' = out @ popped \<and> ops = popped @ LeftParen # ops'"
proof (induction ops arbitrary: out)
  case Nil
  then show ?case by simp
next
  case (Cons tok ops)
  show ?case
  proof (cases "tok = LeftParen")
    case True
    with Cons.prems show ?thesis by simp
  next
    case False
    with Cons.prems have "pop_to_left_paren (out @ [tok]) ops = Some (out', ops')"
      by simp
    from Cons.IH [OF this] obtain popped
      where "out' = (out @ [tok]) @ popped" "ops = popped @ LeftParen # ops'" by blast
    then have "out' = out @ (tok # popped) \<and> tok # ops = (tok # popped) @ LeftParen # ops'"
      by simp
    then show ?thesis by blast
  qed
qed

lemma drain_appends: "drain out ops = Inr rpn \<Longrightarrow> rpn = out @ ops"
  by (induction out ops rule: drain.induct) (auto split: if_splits)

text \<open>
  One token: the stack stays free of operands, and the output grows at its end, first
  by the token itself when it is an operand.
\<close>

lemma toRPN_step_invariant:
  assumes "toRPN_step (out, ops) t = Inr (out', ops')"
    and "list_all (\<lambda>x. \<not> is_operand x) ops"
  shows "list_all (\<lambda>x. \<not> is_operand x) ops'"
    and "filter is_operand out' = filter is_operand out @ filter is_operand [t]"
    and "\<exists>more. out' = out @ filter is_operand [t] @ more"
proof -
  have "list_all (\<lambda>x. \<not> is_operand x) ops'
      \<and> filter is_operand out' = filter is_operand out @ filter is_operand [t]
      \<and> (\<exists>more. out' = out @ filter is_operand [t] @ more)"
  proof (cases t)
    case (Number v)
    with assms show ?thesis by auto
  next
    case (Operator o1)
    obtain out1 ops1 where p: "pop_operators o1 out ops = (out1, ops1)"
      by (cases "pop_operators o1 out ops")
    from pop_operators_moves [OF p] obtain popped
      where m: "out1 = out @ popped" "ops = popped @ ops1" by blast
    from assms Operator p have "out' = out1" "ops' = Operator o1 # ops1" by auto
    with m assms(2) Operator show ?thesis by (auto simp: list_all_iff filter_empty_conv)
  next
    case LeftParen
    with assms show ?thesis by auto
  next
    case RightParen
    with assms obtain popped where "out' = out @ popped" "ops = popped @ LeftParen # ops'"
      using pop_to_left_paren_moves [of out ops out' ops']
      by (auto split: option.splits)
    with assms(2) RightParen show ?thesis by (auto simp: list_all_iff filter_empty_conv)
  next
    case Percent
    with assms show ?thesis by auto
  qed
  then show "list_all (\<lambda>x. \<not> is_operand x) ops'"
    and "filter is_operand out' = filter is_operand out @ filter is_operand [t]"
    and "\<exists>more. out' = out @ filter is_operand [t] @ more"
    by blast+
qed

lemma toRPN_loop_invariant:
  "toRPN_loop (out, ops) ts = Inr (out', ops') \<Longrightarrow>
   list_all (\<lambda>x. \<not> is_operand x) ops \<Longrightarrow>
   list_all (\<lambda>x. \<not> is_operand x) ops'
   \<and> filter is_operand out' = filter is_operand out @ filter is_operand ts
   \<and> (\<exists>more. out' = out @ more)"
proof (induction ts arbitrary: out ops)
  case Nil
  then show ?case by simp
next
  case (Cons t ts)
  from Cons.prems(1) obtain out1 ops1
    where s: "toRPN_step (out, ops) t = Inr (out1, ops1)"
      and l: "toRPN_loop (out1, ops1) ts = Inr (out', ops')"
    by (auto split: sum.splits)
  note st = toRPN_step_invariant [OF s Cons.prems(2)]
  from Cons.IH [OF l st(1)] st(2,3) show ?case by auto
qed

lemma toRPN_loop_append:
  "toRPN_loop s (xs @ ys) =
     (case toRPN_loop s xs of Inl e \<Rightarrow> Inl e | Inr s' \<Rightarrow> toRPN_loop s' ys)"
  by (induction xs arbitrary: s) (auto split: sum.splits)

text \<open>
  C10. Whatever tokens the parser has read, its operator stack holds no number and no
  percent token. When \<open>toRPN\<close> succeeds, the numbers of the output are the numbers of
  the input in the same order, and so are the operands (numbers and percent tokens
  together); and an operand read after the tokens \<open>pre\<close> stands in the output right
  after the output that the parser had written when it had read \<open>pre\<close>.
\<close>

theorem toRPN_operands_in_place:
  "(toRPN_loop ([], []) ts = Inr (out, ops) \<longrightarrow> list_all (\<lambda>x. \<not> is_operand x) ops)
   \<and> (toRPN tokens = Inr rpn \<longrightarrow>
          filter is_number rpn = filter is_number tokens
        \<and> filter is_operand rpn = filter is_operand tokens
        \<and> (\<forall>pre t post. tokens = pre @ t # post \<and> is_operand t \<longrightarrow>
              (\<exists>out1 ops1 rest.
                 toRPN_loop ([], []) pre = Inr (out1, ops1) \<and> rpn = out1 @ t # rest)))"
proof (intro conjI impI allI)
  assume "toRPN_loop ([], []) ts = Inr (out, ops)"
  from toRPN_loop_invariant [OF this] show "list_all (\<lambda>x. \<not> is_operand x) ops"
    by simp
next
  assume r: "toRPN tokens = Inr rpn"
  then obtain out2 ops2 where l: "toRPN_loop ([], []) tokens = Inr (out2, ops2)"
    and d: "drain out2 ops2 = Inr rpn"
    by (auto simp: toRPN_def split: sum.splits)
  from toRPN_loop_invariant [OF l] have i: "list_all (\<lambda>x. \<not> is_operand x) ops2"
    "filter is_operand out2 = filter is_operand tokens" by simp_all
  from drain_appends [OF d] have rpn: "rpn = out2 @ ops2" .
  from i(1) have "filter is_operand ops2 = []"
    by (simp add: list_all_iff filter_empty_conv)
  with rpn i(2) show o: "filter is_operand rpn = filter is_operand tokens" by simp
  have n: "filter is_number xs = filter is_number (filter is_operand xs)" for xs
    by (induction xs) (auto elim: is_number.elims)
  from o n [of rpn] n [of tokens] show "filter is_number rpn = filter is_number tokens"
    by simp
  fix pre t post
  assume "tokens = pre @ t # post \<and> is_operand t"
  then have tk: "tokens = pre @ [t] @ post" and t: "is_operand t" by simp_all
  from l tk obtain s1 where p: "toRPN_loop ([], []) pre = Inr s1"
    and q: "toRPN_loop s1 ([t] @ post) = Inr (out2, ops2)"
    by (auto simp: toRPN_loop_append split: sum.splits)
  obtain out1 ops1 where s1: "s1 = (out1, ops1)" by (cases s1)
  from toRPN_loop_invariant [OF p [unfolded s1]]
  have i1: "list_all (\<lambda>x. \<not> is_operand x) ops1" by simp
  from q s1 obtain out3 ops3 where st: "toRPN_step (out1, ops1) t = Inr (out3, ops3)"
    and l3: "toRPN_loop (out3, ops3) post = Inr (out2, ops2)"
    by (auto split: sum.splits)
  from toRPN_step_invariant(1,3) [OF st i1] t obtain more
    where i3: "list_all (\<lambda>x. \<not> is_operand x) ops3" and o3: "out3 = out1 @ t # more"
    by auto
  from toRPN_loop_invariant [OF l3 i3] obtain more2 where "out2 = out3 @ more2" by blast
  with o3 rpn have "rpn = out1 @ t # (more @ more2 @ ops2)" by simp
  with p s1 show "\<exists>out1 ops1 rest. toRPN_loop ([], []) pre = Inr (out1, ops1) \<and> rpn = out1 @ t # rest"
    by blast
qed

theorem toRPN_operands_in_place_witness:
  "toRPN_loop ([], [])
     [Number (js ''2''), Operator (CH CHR ''*''), LeftParen, Number (js ''3''),
      Operator (CH CHR ''+'')] =
     Inr ([Number (js ''2''), Number (js ''3'')],
          [Operator (CH CHR ''+''), LeftParen, Operator (CH CHR ''*'')])
   \<and> list_all (\<lambda>x. \<not> is_operand x)
        [Operator (CH CHR ''+''), LeftParen, Operator (CH CHR ''*'')]
   \<and> toRPN [Number (js ''2''), Operator (CH CHR ''*''), LeftParen, Number (js ''3''),
             Operator (CH CHR ''+''), Number (js ''50''), Percent, RightParen] =
       Inr [Number (js ''2''), Number (js ''3''), Number (js ''50''), Percent,
            Operator (CH CHR ''+''), Operator (CH CHR ''*'')]
   \<and> filter is_number
        [Number (js ''2''), Number (js ''3''), Number (js ''50''), Percent,
         Operator (CH CHR ''+''), Operator (CH CHR ''*'')] =
      filter is_number
        [Number (js ''2''), Operator (CH CHR ''*''), LeftParen, Number (js ''3''),
         Operator (CH CHR ''+''), Number (js ''50''), Percent, RightParen]
   \<and> filter is_operand
        [Number (js ''2''), Number (js ''3''), Number (js ''50''), Percent,
         Operator (CH CHR ''+''), Operator (CH CHR ''*'')] =
      filter is_operand
        [Number (js ''2''), Operator (CH CHR ''*''), LeftParen, Number (js ''3''),
         Operator (CH CHR ''+''), Number (js ''50''), Percent, RightParen]"
proof -
  let ?ts = "[Number (js ''2''), Operator (CH CHR ''*''), LeftParen, Number (js ''3''),
      Operator (CH CHR ''+'')]"
  let ?ops = "[Operator (CH CHR ''+''), LeftParen, Operator (CH CHR ''*'')]"
  let ?tokens = "[Number (js ''2''), Operator (CH CHR ''*''), LeftParen, Number (js ''3''),
      Operator (CH CHR ''+''), Number (js ''50''), Percent, RightParen]"
  let ?rpn = "[Number (js ''2''), Number (js ''3''), Number (js ''50''), Percent,
      Operator (CH CHR ''+''), Operator (CH CHR ''*'')]"
  have l: "toRPN_loop ([], []) ?ts = Inr ([Number (js ''2''), Number (js ''3'')], ?ops)"
    by code_simp
  have r: "toRPN ?tokens = Inr ?rpn"
    by code_simp
  note th = toRPN_operands_in_place
    [of ?ts "[Number (js ''2''), Number (js ''3'')]" ?ops ?tokens ?rpn]
  from th l have a: "list_all (\<lambda>x. \<not> is_operand x) ?ops" by blast
  from th r have b: "filter is_number ?rpn = filter is_number ?tokens"
    and c: "filter is_operand ?rpn = filter is_operand ?tokens" by blast+
  from l r a b c show ?thesis by blast
qed

section \<open>The examples of the specification\<close>

text \<open>
  C1. \<open>-5+3\<close> gives \<open>-2\<close> and \<open>(-2)*3\<close> gives \<open>-6\<close>, as the claim says. On
  \<open>3*-2\<close> the tokenizer writes the zero between \<open>*\<close> and \<open>-\<close>, and the parser,
  which knows no unary operator, reads \<open>3*0-2\<close>: the product binds first, and the
  result is \<open>-2\<close>, not the \<open>-6\<close> of the claim.
\<close>

theorem unary_minus_examples:
  "evaluate (js ''-5+3'') = Inr (js ''-2'')
   \<and> evaluate (js ''(-2)*3'') = Inr (js ''-6'')
   \<and> tokenize (js ''3*-2'') =
       Inr [Number (js ''3''), Operator (CH CHR ''*''), Number (js ''0''),
            Operator (CH CHR ''-''), Number (js ''2'')]
   \<and> toRPN [Number (js ''3''), Operator (CH CHR ''*''), Number (js ''0''),
             Operator (CH CHR ''-''), Number (js ''2'')] =
       Inr [Number (js ''3''), Number (js ''0''), Operator (CH CHR ''*''),
            Number (js ''2''), Operator (CH CHR ''-'')]
   \<and> evaluate (js ''3*-2'') = Inr (js ''-2'')"
  by code_simp

text \<open>
  C2, as the code has it: the zero is written before a \<open>-\<close> only, so \<open>+5\<close> reaches
  the evaluator as \<open>5 +\<close> and fails there with the operator error.
\<close>

theorem plus_five_counterexample:
  "evaluate (js ''+5'') = Inl OperatorError"
  by code_simp

text \<open>
  C2, amended: a leading \<open>+\<close> becomes an operator token with no zero before it, and
  the postfix sequence \<open>5 +\<close> of the input \<open>+5\<close> fails with the operator error; a
  leading \<open>-\<close> gets the zero, and the input \<open>-5\<close> does not underflow: its result is
  \<open>-5\<close>.
\<close>

theorem leading_sign:
  "tokenize (CH CHR ''+'' # rest) = tokenize_loop [Operator (CH CHR ''+'')] rest
   \<and> tokenize (CH CHR ''-'' # rest) =
       tokenize_loop [Number (js ''0''), Operator (CH CHR ''-'')] rest
   \<and> toRPN [Operator (CH CHR ''+''), Number (js ''5'')] =
       Inr [Number (js ''5''), Operator (CH CHR ''+'')]
   \<and> evalRPN [Number (js ''5''), Operator (CH CHR ''+'')] = Inl OperatorError
   \<and> evaluate (js ''-5'') = Inr (js ''-5'')"
proof -
  have a: "tokenize (CH CHR ''+'' # rest) = tokenize_loop [Operator (CH CHR ''+'')] rest"
    by (simp add: tokenize_def is_space_def is_number_char_def is_digit_def
        is_operator_char_def)
  have b: "tokenize (CH CHR ''-'' # rest) =
       tokenize_loop [Number (js ''0''), Operator (CH CHR ''-'')] rest"
    by (simp add: tokenize_def is_space_def is_number_char_def is_digit_def
        is_operator_char_def unary_position_def)
  have c: "toRPN [Operator (CH CHR ''+''), Number (js ''5'')] =
       Inr [Number (js ''5''), Operator (CH CHR ''+'')]"
    by code_simp
  have d: "evalRPN [Number (js ''5''), Operator (CH CHR ''+'')] = Inl OperatorError"
    by code_simp
  have e: "evaluate (js ''-5'') = Inr (js ''-5'')"
    by code_simp
  from a b c d e show ?thesis by blast
qed

text \<open>
  C4. The result of \<open>0.0000001\<close> is the string \<open>1e-7\<close>, which the tokenizer
  refuses at its \<open>e\<close>: the calculator that shows \<open>1e-7\<close> shows \<open>Error\<close> after
  the next evaluation. And the result \<open>4180.018287395547\<close> of
  \<open>4180.018287395546\<close> evaluates to \<open>4180.018287395548\<close>: the rounding to twelve
  decimals moves a value that it has produced itself.
\<close>

theorem reevaluation_fails:
  "evaluate (js ''0.0000001'') = Inr (js ''1e-7'')
   \<and> evaluate (js ''1e-7'') = Inl (InvalidCharacter (CH CHR ''e''))
   \<and> evaluateExpression
        \<lparr>current = js ''0.0000001'', history = [], display = js ''0.0000001''\<rparr> =
       \<lparr>current = js ''1e-7'', history = [(js ''0.0000001'', js ''1e-7'')],
        display = js ''1e-7''\<rparr>
   \<and> evaluateExpression
        \<lparr>current = js ''1e-7'', history = [(js ''0.0000001'', js ''1e-7'')],
         display = js ''1e-7''\<rparr> =
       \<lparr>current = [], history = [(js ''0.0000001'', js ''1e-7'')],
        display = js ''Error''\<rparr>
   \<and> evaluate (js ''4180.018287395546'') = Inr (js ''4180.018287395547'')
   \<and> evaluate (js ''4180.018287395547'') = Inr (js ''4180.018287395548'')"
  by code_simp

text \<open>
  C5. \<open>2+3*4\<close> is \<open>14\<close> and \<open>(2+3)*4\<close> is \<open>20\<close>; the table gives \<open>+\<close> and
  \<open>-\<close> the precedence 1, \<open>*\<close> and \<open>/\<close> the precedence 2, and all four associate
  to the left (\<open>8-3-2\<close> is \<open>3\<close>, \<open>8/4/2\<close> is \<open>1\<close>).
\<close>

theorem precedence_examples:
  "evaluate (js ''2+3*4'') = Inr (js ''14'')
   \<and> evaluate (js ''(2+3)*4'') = Inr (js ''20'')
   \<and> precedence (CH CHR ''+'') = Some 1 \<and> precedence (CH CHR ''-'') = Some 1
   \<and> precedence (CH CHR ''*'') = Some 2 \<and> precedence (CH CHR ''/'') = Some 2
   \<and> isLeftAssoc (CH CHR ''+'') = Some True \<and> isLeftAssoc (CH CHR ''-'') = Some True
   \<and> isLeftAssoc (CH CHR ''*'') = Some True \<and> isLeftAssoc (CH CHR ''/'') = Some True
   \<and> evaluate (js ''8-3-2'') = Inr (js ''3'')
   \<and> evaluate (js ''8/4/2'') = Inr (js ''1'')"
  by code_simp

text \<open>
  C6. A percent token divides the top of the stack by 100 (and fails on an empty
  stack). \<open>50%\<close> is \<open>0.5\<close>; in \<open>200+10%\<close> the percent stands right after the
  \<open>10\<close> in the postfix sequence, and the result is \<open>200.1\<close> (the percent of the
  whole sum, \<open>(200+10)%\<close>, is \<open>2.1\<close>).
\<close>

theorem percent_examples:
  "evaluate (js ''50%'') = Inr (js ''0.5'')
   \<and> evaluate (js ''200+10%'') = Inr (js ''200.1'')
   \<and> evalRPN_step (v # stack) Percent = Inr (js_div v lit_100 # stack)
   \<and> evalRPN_step [] Percent = Inl PercentError
   \<and> (case tokenize (js ''200+10%'') of Inl e \<Rightarrow> Inl e | Inr ts \<Rightarrow> toRPN ts) =
       Inr [Number (js ''200''), Number (js ''10''), Percent, Operator (CH CHR ''+'')]
   \<and> evaluate (js ''(200+10)%'') = Inr (js ''2.1'')"
proof -
  have a: "evaluate (js ''50%'') = Inr (js ''0.5'')" by code_simp
  have d: "evaluate (js ''(200+10)%'') = Inr (js ''2.1'')" by code_simp
  have b: "evaluate (js ''200+10%'') = Inr (js ''200.1'')" by code_simp
  have c: "(case tokenize (js ''200+10%'') of Inl e \<Rightarrow> Inl e | Inr ts \<Rightarrow> toRPN ts) =
       Inr [Number (js ''200''), Number (js ''10''), Percent, Operator (CH CHR ''+'')]"
    by code_simp
  from a b c d show ?thesis by simp
qed

text \<open>
  C7. \<open>5/0\<close> fails with the division error; and a division step, with the right
  operand \<open>b\<close> on top of the left operand \<open>a\<close>, fails with that error when \<open>b\<close> is
  a zero and pushes the quotient otherwise.
\<close>

theorem division_by_zero:
  "evaluate (js ''5/0'') = Inl DivisionByZero
   \<and> (evalRPN_step (b # a # stack) (Operator (CH CHR ''/'')) = Inl DivisionByZero)
       = is_zero b
   \<and> evalRPN_step (b # a # stack) (Operator (CH CHR ''/'')) =
       (if is_zero b then Inl DivisionByZero else Inr (js_div a b # stack))"
proof -
  have "evaluate (js ''5/0'') = Inl DivisionByZero" by code_simp
  then show ?thesis by (simp add: apply_operator_def)
qed

text \<open>
  C8. \<open>(1+2\<close> and \<open>1+2)\<close> fail with the parenthesis error: the first when the stack
  is drained at the end of the input (the loop over the tokens succeeds and leaves the
  left parenthesis on the stack), the second at the right parenthesis, which finds no
  left parenthesis on the stack.
\<close>

theorem mismatched_parentheses:
  "evaluate (js ''(1+2'') = Inl MismatchedParentheses
   \<and> evaluate (js ''1+2)'') = Inl MismatchedParentheses
   \<and> toRPN_loop ([], [])
        [LeftParen, Number (js ''1''), Operator (CH CHR ''+''), Number (js ''2'')] =
       Inr ([Number (js ''1''), Number (js ''2'')], [Operator (CH CHR ''+''), LeftParen])
   \<and> drain [Number (js ''1''), Number (js ''2'')] [Operator (CH CHR ''+''), LeftParen] =
       Inl MismatchedParentheses
   \<and> toRPN_loop ([], [])
        [Number (js ''1''), Operator (CH CHR ''+''), Number (js ''2'')] =
       Inr ([Number (js ''1''), Number (js ''2'')], [Operator (CH CHR ''+'')])
   \<and> toRPN_step ([Number (js ''1''), Number (js ''2'')], [Operator (CH CHR ''+'')]) RightParen =
       Inl MismatchedParentheses"
  by code_simp

text \<open>
  C9. \<open>(0-1)*0\<close> evaluates to the negative zero; a division step whose right operand
  is the negative zero fails with the division error, as it does for the positive zero;
  and so does the whole of \<open>1/((0-1)*0)\<close>.
\<close>

theorem division_by_negative_zero:
  "calculate (js ''(0-1)*0'') = Inr negative_zero
   \<and> evalRPN_step (negative_zero # a # stack) (Operator (CH CHR ''/'')) = Inl DivisionByZero
   \<and> evalRPN_step (positive_zero # a # stack) (Operator (CH CHR ''/'')) = Inl DivisionByZero
   \<and> evaluate (js ''1/((0-1)*0)'') = Inl DivisionByZero"
proof -
  have a: "calculate (js ''(0-1)*0'') = Inr negative_zero" by code_simp
  have b: "evaluate (js ''1/((0-1)*0)'') = Inl DivisionByZero" by code_simp
  from a b show ?thesis
    by (simp add: apply_operator_def negative_zero_def positive_zero_def)
qed

end
